theory Spec2Isabelle
  imports Complex_Main
begin

section \<open>Numbers: Python's \<open>round\<close> and floats\<close>

text \<open>
  \<open>round(x, n)\<close> is the multiple of \<open>10^-n\<close> nearest to \<open>x\<close>, a tie going to the even
  multiple (Python's rule on the exact value of its argument).
\<close>

definition round_half_even :: "real \<Rightarrow> int" where
  "round_half_even x =
     (let f = \<lfloor>x\<rfloor>; d = x - of_int f
      in if d < 1 / 2 then f
         else if 1 / 2 < d then f + 1
         else if even f then f else f + 1)"

definition py_round :: "real \<Rightarrow> nat \<Rightarrow> real" where
  "py_round x ndigits = of_int (round_half_even (x * 10 ^ ndigits)) / 10 ^ ndigits"

text \<open>
  A Python float is an IEEE binary64 number, and an operation on floats is the exact
  operation followed by the rounding to the nearest float, a tie going to the even
  significand. \<open>binary64 x\<close> is that rounding: with \<open>2^e \<le> |x| < 2^(e+1)\<close> the floats around
  \<open>x\<close> are the multiples of \<open>2^(e-52)\<close>. \<open>exponent n x\<close> finds \<open>e\<close> for a positive \<open>x\<close> by
  halving or doubling at most \<open>n\<close> times. Overflow and subnormal numbers are left out: the
  numbers of the app are far from both.

  The estimated A1C is computed on floats, since its second decimal depends on the float
  quotient. The mean and the percentages of \<open>time_in_range\<close> are kept as the exact numbers
  that their floats stand for.
\<close>

fun exponent :: "nat \<Rightarrow> real \<Rightarrow> int" where
  "exponent 0 x = 0"
| "exponent (Suc n) x =
     (if 2 \<le> x then exponent n (x / 2) + 1
      else if x < 1 then exponent n (2 * x) - 1
      else 0)"

definition binary64 :: "real \<Rightarrow> real" where
  "binary64 x =
     (if x = 0 then 0
      else let u = 2 powi (exponent 1100 \<bar>x\<bar> - 52)
           in of_int (round_half_even (x / u)) * u)"

section \<open>Metrics\<close>

text \<open>
  \<^verbatim>\<open>def est_a1c_from_eag(eag_mgdl): return round((eag_mgdl + 46.7) / 28.7, 2)\<close>
  The argument is a float. The literals are the floats nearest to 46.7 and 28.7; the sum,
  the quotient and the result of \<open>round\<close> are floats.
\<close>

definition est_a1c_from_eag :: "real \<Rightarrow> real" where
  "est_a1c_from_eag eag_mgdl =
     binary64 (py_round
       (binary64 (binary64 (eag_mgdl + binary64 (467 / 10)) / binary64 (287 / 10))) 2)"

text \<open>
  The three counts of \<^verbatim>\<open>time_in_range\<close>: \<open>((series >= low) & (series <= high)).sum()\<close>,
  \<open>(series < low).sum()\<close> and \<open>(series > high).sum()\<close>. The series is the integer column
  \<open>glucose_mgdl\<close>.
\<close>

definition in_range_ct :: "int list \<Rightarrow> int \<Rightarrow> int \<Rightarrow> nat" where
  "in_range_ct series low high = length (filter (\<lambda>x. low \<le> x \<and> x \<le> high) series)"

definition low_ct :: "int list \<Rightarrow> int \<Rightarrow> nat" where
  "low_ct series low = length (filter (\<lambda>x. x < low) series)"

definition high_ct :: "int list \<Rightarrow> int \<Rightarrow> nat" where
  "high_ct series high = length (filter (\<lambda>x. high < x) series)"

definition time_in_range :: "int list \<Rightarrow> int \<Rightarrow> int \<Rightarrow> real \<times> real \<times> real" where
  "time_in_range series low high =
     (if length series = 0 then (0, 0, 0)
      else
        let total = length series;
            in_range = in_range_ct series low high;
            lo = low_ct series low;
            hi = high_ct series high
        in (py_round (100 * real in_range / real total) 1,
            py_round (100 * real lo / real total) 1,
            py_round (100 * real hi / real total) 1))"

definition pct_sum :: "real \<times> real \<times> real \<Rightarrow> real" where
  "pct_sum t = fst t + fst (snd t) + snd (snd t)"

section \<open>Timestamps\<close>

text \<open>
  A pandas \<open>Timestamp\<close> holds the nanoseconds since the epoch, counted in UTC, and an
  optional zone; a naive one (no zone) holds its wall-clock reading as if it were UTC.
  A zone gives the offset of its wall clock from UTC at each instant, in nanoseconds.
  \<open>NaT\<close> is the missing timestamp.
\<close>

datatype py_error = TypeError

datatype tzinfo = UTC | Zone "int \<Rightarrow> int"

fun utcoffset :: "tzinfo \<Rightarrow> int \<Rightarrow> int" where
  "utcoffset UTC v = 0"
| "utcoffset (Zone f) v = f v"

datatype stamp = Timestamp int "tzinfo option" | NaT

text \<open>
  A cell of the \<open>datetime\<close> column before normalisation, as \<open>read_csv\<close> and the input
  form leave it: text, or a datetime (a missing cell is \<open>Dt NaT\<close>).
\<close>

datatype raw = Str string | Dt stamp

fun isna :: "stamp \<Rightarrow> bool" where
  "isna NaT = True"
| "isna (Timestamp v tz) = False"

text \<open>\<open>getattr(x, "tzinfo", None)\<close>; \<open>NaT.tzinfo\<close> is \<open>None\<close>.\<close>

fun tzinfo_of :: "stamp \<Rightarrow> tzinfo option" where
  "tzinfo_of (Timestamp v tz) = tz"
| "tzinfo_of NaT = None"

text \<open>
  \<open>x.tz_localize("UTC")\<close> tags a naive timestamp and raises \<open>TypeError\<close> on an aware one;
  \<open>x.tz_convert(tz)\<close> re-tags an aware timestamp, the instant unchanged, and raises
  \<open>TypeError\<close> on a naive one. Both leave \<open>NaT\<close> as it is.
\<close>

fun tz_localize_UTC :: "stamp \<Rightarrow> py_error + stamp" where
  "tz_localize_UTC (Timestamp v None) = Inr (Timestamp v (Some UTC))"
| "tz_localize_UTC (Timestamp v (Some z)) = Inl TypeError"
| "tz_localize_UTC NaT = Inr NaT"

fun tz_convert :: "stamp \<Rightarrow> tzinfo \<Rightarrow> py_error + stamp" where
  "tz_convert (Timestamp v (Some z)) tz = Inr (Timestamp v (Some tz))"
| "tz_convert (Timestamp v None) tz = Inl TypeError"
| "tz_convert NaT tz = Inr NaT"

text \<open>
  \<open>pd.to_datetime(x, errors="coerce")\<close> on one cell. The parser of text is a parameter:
  it yields the instant and the zone read from the text, or nothing when the text is not
  a date; \<open>coerce\<close> turns that failure into \<open>NaT\<close>.
\<close>

type_synonym parser = "string \<Rightarrow> (int \<times> tzinfo option) option"

fun to_datetime_coerce :: "parser \<Rightarrow> raw \<Rightarrow> stamp" where
  "to_datetime_coerce parse (Str s) =
     (case parse s of None \<Rightarrow> NaT | Some (v, tz) \<Rightarrow> Timestamp v tz)"
| "to_datetime_coerce parse (Dt x) = x"

text \<open>\<open>pd.to_datetime(x, utc=True)\<close> on a datetime: the same instant, tagged UTC.\<close>

fun to_datetime_utc :: "stamp \<Rightarrow> py_error + stamp" where
  "to_datetime_utc (Timestamp v tz) = Inr (Timestamp v (Some UTC))"
| "to_datetime_utc NaT = Inr NaT"

text \<open>\<open>Series.apply\<close>: the function on every cell in order; the first exception ends it.\<close>

fun apply_series :: "('a \<Rightarrow> py_error + 'b) \<Rightarrow> 'a list \<Rightarrow> py_error + 'b list" where
  "apply_series f [] = Inr []"
| "apply_series f (x # xs) =
     (case f x of
        Inl e \<Rightarrow> Inl e
      | Inr y \<Rightarrow> (case apply_series f xs of Inl e \<Rightarrow> Inl e | Inr ys \<Rightarrow> Inr (y # ys)))"

text \<open>
  \<^verbatim>\<open>
  def ensure_utc(s):
      def fix(x):
          x = pd.to_datetime(x, errors="coerce")
          if pd.isna(x): return x
          if getattr(x, "tzinfo", None) is None: return x.tz_localize("UTC")
          return x.tz_convert("UTC")
      return s.apply(fix)
  \<close>
\<close>

definition ensure_utc_fix :: "parser \<Rightarrow> raw \<Rightarrow> py_error + stamp" where
  "ensure_utc_fix parse x0 =
     (let x = to_datetime_coerce parse x0
      in if isna x then Inr x
         else if tzinfo_of x = None then tz_localize_UTC x
         else tz_convert x UTC)"

definition ensure_utc :: "parser \<Rightarrow> raw list \<Rightarrow> py_error + stamp list" where
  "ensure_utc parse s = apply_series (ensure_utc_fix parse) s"

text \<open>
  \<^verbatim>\<open>
  def to_local(dt_series):
      def fix_ts(x):
          if pd.isna(x): return x
          try:
              if getattr(x, "tzinfo", None) is None: x = x.tz_localize("UTC")
              else: x = x.tz_convert("UTC")
              return x.tz_convert(tz.tzlocal())
          except Exception:
              return pd.to_datetime(x, utc=True).tz_convert(tz.tzlocal())
      return dt_series.apply(fix_ts)
  \<close>
  The zone of the host, \<open>tz.tzlocal()\<close>, is the parameter \<open>local\<close>.
\<close>

definition fix_ts :: "tzinfo \<Rightarrow> stamp \<Rightarrow> py_error + stamp" where
  "fix_ts local x =
     (if isna x then Inr x
      else
        case (case (if tzinfo_of x = None then tz_localize_UTC x else tz_convert x UTC) of
                Inl e \<Rightarrow> Inl e
              | Inr x' \<Rightarrow> tz_convert x' local) of
          Inr y \<Rightarrow> Inr y
        | Inl e \<Rightarrow> (case to_datetime_utc x of Inl e' \<Rightarrow> Inl e' | Inr u \<Rightarrow> tz_convert u local))"

definition to_local :: "tzinfo \<Rightarrow> stamp list \<Rightarrow> py_error + stamp list" where
  "to_local local dt_series = apply_series (fix_ts local) dt_series"

text \<open>
  The normalisation in the words of the specification: text that is not a date is missing;
  a value with no zone is tagged with the reference zone as it stands; a value with a zone
  is taken to the reference zone, the instant unchanged.
\<close>

definition normalize_to_reference :: "parser \<Rightarrow> raw \<Rightarrow> stamp" where
  "normalize_to_reference parse x =
     (case to_datetime_coerce parse x of
        NaT \<Rightarrow> NaT
      | Timestamp v None \<Rightarrow> Timestamp v (Some UTC)
      | Timestamp v (Some z) \<Rightarrow> Timestamp v (Some UTC))"

section \<open>The log and its filter\<close>

text \<open>
  One row of the log, with the six columns of \<open>COLUMNS\<close> (\<open>context_col\<close> and \<open>notes_col\<close> are the columns \<open>context\<close> and \<open>notes\<close>). The type of the \<open>datetime\<close> cell
  is a parameter: \<open>raw\<close> as loaded, \<open>stamp\<close> once normalised.
\<close>

record 'd reading =
  datetime :: 'd
  glucose_mgdl :: int
  context_col :: string
  carbs_g :: real
  insulin_units :: real
  notes_col :: string

text \<open>\<open>df["datetime"] = ...\<close>: the column replaced, the other cells kept.\<close>

definition set_datetime :: "'a reading \<Rightarrow> 'b \<Rightarrow> 'b reading" where
  "set_datetime r d =
     \<lparr>datetime = d, glucose_mgdl = glucose_mgdl r, context_col = context_col r,
      carbs_g = carbs_g r, insulin_units = insulin_units r, notes_col = notes_col r\<rparr>"

definition ns_per_day :: int where
  "ns_per_day = 86400000000000"

text \<open>
  \<open>.dt.date\<close>: the calendar date (days since the epoch) that the wall clock of the cell's own
  zone shows; missing for \<open>NaT\<close>. A comparison of a missing date is \<open>False\<close>.
\<close>

fun dt_date :: "stamp \<Rightarrow> int option" where
  "dt_date (Timestamp v None) = Some (v div ns_per_day)"
| "dt_date (Timestamp v (Some z)) = Some ((v + utcoffset z v) div ns_per_day)"
| "dt_date NaT = None"

fun date_ge :: "int option \<Rightarrow> int \<Rightarrow> bool" where
  "date_ge None d = False"
| "date_ge (Some x) d = (d \<le> x)"

fun date_le :: "int option \<Rightarrow> int \<Rightarrow> bool" where
  "date_le None d = False"
| "date_le (Some x) d = (x \<le> d)"

text \<open>
  \<^verbatim>\<open>
  if not df.empty:
      df["datetime"] = ensure_utc(df["datetime"])
      mask = (df["datetime"].dt.date >= start_date) & (df["datetime"].dt.date <= end_date)
      if ctx_filter:
          mask &= df["context"].isin(ctx_filter)
      view = df.loc[mask].copy()
  else:
      view = df.copy()
  \<close>
  \<open>mask_row\<close> is the value of \<open>mask\<close> at one row. When no cell of the normalised column
  is a timestamp, the column holds no date at all, and its comparison with \<open>start_date\<close>
  raises \<open>TypeError\<close>; nothing catches it.
\<close>

definition mask_row :: "int \<Rightarrow> int \<Rightarrow> string list \<Rightarrow> stamp reading \<Rightarrow> bool" where
  "mask_row start_date end_date ctx_filter r =
     (let m = (date_ge (dt_date (datetime r)) start_date \<and> date_le (dt_date (datetime r)) end_date)
      in if ctx_filter \<noteq> [] then m \<and> context_col r \<in> set ctx_filter else m)"

definition view :: "parser \<Rightarrow> raw reading list \<Rightarrow> int \<Rightarrow> int \<Rightarrow> string list
    \<Rightarrow> py_error + stamp reading list" where
  "view parse df start_date end_date ctx_filter =
     (if df \<noteq> [] then
        case ensure_utc parse (map datetime df) of
          Inl e \<Rightarrow> Inl e
        | Inr dts \<Rightarrow>
            if list_all isna dts then Inl TypeError
            else Inr (filter (mask_row start_date end_date ctx_filter) (map2 set_datetime df dts))
      else Inr [])"

text \<open>
  \<^verbatim>\<open>
  if not view.empty:
      view["local_dt"] = to_local(view["datetime"])
  \<close>
  The frame after the statement: its rows, and the new column when there is one.
\<close>

definition add_local_dt :: "tzinfo \<Rightarrow> stamp reading list
    \<Rightarrow> py_error + (stamp reading list \<times> stamp list option)" where
  "add_local_dt local v =
     (if v \<noteq> [] then
        case to_local local (map datetime v) of
          Inl e \<Rightarrow> Inl e
        | Inr l \<Rightarrow> Inr (v, Some l)
      else Inr (v, None))"

section \<open>The metric tiles\<close>

text \<open>
  \<^verbatim>\<open>
  if view.empty:
      k1.metric("Readings", "0"); k2.metric("Avg (mg/dL)", "-")
      k3.metric("Time-in-Range", "-"); k4.metric("Est. A1C", "-")
  else:
      avg = float(view["glucose_mgdl"].mean())
      tir, below, above = time_in_range(view["glucose_mgdl"], default_low, default_high)
      k1.metric("Readings", len(view)); k2.metric("Avg (mg/dL)", avg)
      k3.metric("Time-in-Range", (tir, below, above)); k4.metric("Est. A1C", est_a1c_from_eag(avg))
  \<close>
  A tile shows a value or the dash; the dash is \<open>None\<close>. The formatting of the numbers as
  text is left out. \<open>avg\<close> is the exact mean; the float that stands for it, \<open>binary64 avg\<close>,
  is what \<open>est_a1c_from_eag\<close> receives.
\<close>

record tiles =
  k1 :: nat
  k2 :: "real option"
  k3 :: "(real \<times> real \<times> real) option"
  k4 :: "real option"

definition metrics :: "stamp reading list \<Rightarrow> int \<Rightarrow> int \<Rightarrow> tiles" where
  "metrics v default_low default_high =
     (if v = [] then \<lparr>k1 = 0, k2 = None, k3 = None, k4 = None\<rparr>
      else
        let avg = real_of_int (sum_list (map glucose_mgdl v)) / real (length v);
            t = time_in_range (map glucose_mgdl v) default_low default_high
        in \<lparr>k1 = length v, k2 = Some avg, k3 = Some t, k4 = Some (est_a1c_from_eag (binary64 avg))\<rparr>)"

section \<open>Sample inputs\<close>

text \<open>A parser that knows one date, a zone two hours east of UTC, and a few rows.\<close>

definition sample_parse :: parser where
  "sample_parse s = (if s = ''1970-01-02'' then Some (86400000000000, None) else None)"

definition two_east :: tzinfo where
  "two_east = Zone (\<lambda>v. 7200000000000)"

definition late_stamp :: stamp where
  "late_stamp = Timestamp 84600000000000 (Some UTC)"

definition row :: "'d \<Rightarrow> int \<Rightarrow> 'd reading" where
  "row d g = \<lparr>datetime = d, glucose_mgdl = g, context_col = ''fasting'',
              carbs_g = 0, insulin_units = 0, notes_col = []\<rparr>"

section \<open>Rounding\<close>

lemma round_half_even_bounds:
  "\<bar>of_int (round_half_even x) - x\<bar> \<le> 1 / 2"
  unfolding round_half_even_def Let_def by (auto simp: abs_le_iff)

lemma py_round_scaled:
  "py_round x n * 10 ^ n = of_int (round_half_even (x * 10 ^ n))"
  by (simp add: py_round_def)

lemma py_round_error:
  "\<bar>py_round x n - x\<bar> \<le> 1 / (2 * 10 ^ n)"
proof -
  have p: "(0::real) < 10 ^ n" by simp
  have "py_round x n * 10 ^ n - x * 10 ^ n = (py_round x n - x) * 10 ^ n"
    by (simp add: algebra_simps)
  then have "\<bar>py_round x n - x\<bar> * 10 ^ n = \<bar>py_round x n * 10 ^ n - x * 10 ^ n\<bar>"
    using p by (simp add: abs_mult)
  also have "\<dots> \<le> 1 / 2"
    unfolding py_round_scaled by (rule round_half_even_bounds)
  finally have "\<bar>py_round x n - x\<bar> * 10 ^ n \<le> 1 / 2" .
  then have "\<bar>py_round x n - x\<bar> \<le> (1 / 2) / 10 ^ n"
    using p by (simp add: pos_le_divide_eq)
  then show ?thesis by simp
qed

lemma py_round_hundredths:
  "py_round x 2 = of_int (round_half_even (x * 100)) / 100"
  by (simp add: py_round_def)

section \<open>Floats\<close>

lemma exponent_bounds:
  "2 powi (- int n) \<le> x \<Longrightarrow> x < 2 powi (int n + 1) \<Longrightarrow>
   2 powi (exponent n x) \<le> x \<and> x < 2 powi (exponent n x + 1)"
proof (induction n arbitrary: x)
  case 0
  then show ?case by simp
next
  case (Suc n)
  have up: "\<And>k::int. (2::real) powi (k + 1) = 2 * 2 powi k"
    by (simp add: power_int_add_1')
  have dn: "(2::real) powi (- int (Suc n)) = 2 powi (- int n) / 2"
  proof -
    have "- int (Suc n) = - int n - 1" by simp
    then have "(2::real) powi (- int (Suc n)) = 2 powi (- int n - 1)" by (simp only:)
    also have "\<dots> = 2 powi (- int n) / 2 powi 1" by (rule power_int_diff) simp
    finally show ?thesis by simp
  qed
  have pos: "(0::real) < 2 powi (- int n)" by simp
  consider "2 \<le> x" | "x < 1" | "1 \<le> x" "x < 2" by linarith
  then show ?case
  proof cases
    case 1
    define e where "e = exponent n (x / 2)"
    have "2 powi (- int n) \<le> (1::real)"
      by (simp add: power_int_minus inverse_eq_divide)
    then have a: "2 powi (- int n) \<le> x / 2" using 1 by linarith
    have "x < 2 * 2 powi (int n + 1)"
      using Suc.prems(2) up [of "int n + 1"] by (simp add: add.commute)
    then have b: "x / 2 < 2 powi (int n + 1)" by linarith
    have ih: "2 powi e \<le> x / 2" "x / 2 < 2 powi (e + 1)"
      using Suc.IH [OF a b] by (simp_all add: e_def)
    have E: "exponent (Suc n) x = e + 1" using 1 by (simp add: e_def)
    have c: "2 powi (e + 1) \<le> x" using ih(1) up [of e] by linarith
    have d: "x < 2 powi (e + 1 + 1)" using ih(2) up [of "e + 1"] by linarith
    show ?thesis unfolding E using c d by (rule conjI)
  next
    case 2
    define e where "e = exponent n (2 * x)"
    have a: "2 powi (- int n) \<le> 2 * x"
      using Suc.prems(1) unfolding dn by linarith
    have "(2::real) \<le> 2 powi (int n + 1)"
      using up [of "int n"] by (simp add: one_le_power)
    then have b: "2 * x < 2 powi (int n + 1)" using 2 by linarith
    have ih: "2 powi e \<le> 2 * x" "2 * x < 2 powi (e + 1)"
      using Suc.IH [OF a b] by (simp_all add: e_def)
    have E: "exponent (Suc n) x = e - 1" using 2 by (simp add: e_def)
    have p: "(2::real) powi e = 2 * 2 powi (e - 1)" using up [of "e - 1"] by simp
    have c: "2 powi (e - 1) \<le> x" using ih(1) p by linarith
    have "x < 2 powi e" using ih(2) up [of e] by linarith
    then have d: "x < 2 powi (e - 1 + 1)" by simp
    show ?thesis unfolding E using c d by (rule conjI)
  next
    case 3
    then show ?thesis by simp
  qed
qed

lemma binary64_error:
  assumes "2 powi (- 1100) \<le> \<bar>x\<bar>" and "\<bar>x\<bar> < 2 powi 1101"
  shows "\<bar>binary64 x - x\<bar> \<le> \<bar>x\<bar> / 2 ^ 53"
proof -
  define e where "e = exponent 1100 \<bar>x\<bar>"
  define u :: real where "u = 2 powi (e - 52)"
  have x0: "x \<noteq> 0" using assms(1) by auto
  have u0: "0 < u" by (simp add: u_def)
  have "2 powi (- int 1100) \<le> \<bar>x\<bar>" "\<bar>x\<bar> < 2 powi (int 1100 + 1)"
    using assms by simp_all
  from exponent_bounds [OF this] have lo: "2 powi e \<le> \<bar>x\<bar>"
    by (simp add: e_def)
  have "u = 2 powi e / 2 ^ 52"
    unfolding u_def using power_int_diff [of "2::real" e 52] by simp
  then have ux: "u \<le> \<bar>x\<bar> / 2 ^ 52" using lo by (simp add: divide_right_mono)
  have b: "binary64 x = of_int (round_half_even (x / u)) * u"
    using x0 by (simp add: binary64_def Let_def e_def u_def)
  have "binary64 x - x = (of_int (round_half_even (x / u)) - x / u) * u"
    unfolding b using u0 by (simp add: left_diff_distrib)
  then have "\<bar>binary64 x - x\<bar> = \<bar>of_int (round_half_even (x / u)) - x / u\<bar> * u"
    using u0 by (simp add: abs_mult)
  also have "\<dots> \<le> (1 / 2) * u"
    using round_half_even_bounds [of "x / u"] u0 by (simp add: mult_right_mono)
  finally have "\<bar>binary64 x - x\<bar> \<le> u / 2" by simp
  with ux show ?thesis by simp
qed

lemma binary64_near:
  assumes "1 \<le> x" and "x \<le> 1024"
  shows "\<bar>binary64 x - x\<bar> \<le> 1 / 8796093022208"
proof -
  have "(2::real) powi (- 1100) \<le> 1"
    by (simp add: power_int_minus inverse_eq_divide)
  then have a: "2 powi (- 1100) \<le> \<bar>x\<bar>" using assms by linarith
  have "(1024::real) < 2 ^ 1101" by simp
  then have b: "\<bar>x\<bar> < 2 powi 1101" using assms by simp
  have "\<bar>binary64 x - x\<bar> \<le> \<bar>x\<bar> / 2 ^ 53"
    by (rule binary64_error [OF a b])
  also have "\<dots> \<le> 1024 / 2 ^ 53" using assms by (simp add: divide_right_mono)
  also have "\<dots> = 1 / 8796093022208" by simp
  finally show ?thesis .
qed

lemma binary64_46_7: "binary64 (467 / 10) = 3286220353096909 / 70368744177664"
  by code_simp

lemma binary64_28_7: "binary64 (287 / 10) = 8078331831595827 / 281474976710656"
  by code_simp

lemma est_a1c_154: "est_a1c_from_eag 154 = 3935020174414971 / 562949953421312"
  by code_simp

lemma binary64_6_99: "binary64 (699 / 100) = 3935020174414971 / 562949953421312"
  by code_simp

text \<open>
  Where the exact quotient is a tie of the second decimal, the float quotient decides:
  the means 10327/80, 10901/80 and 8035/16 have the exact quotients 6.125, 6.375 and 19.125.
\<close>

lemma est_a1c_at_tie:
  "est_a1c_from_eag (binary64 (10327 / 80)) = binary64 (613 / 100)"
  "est_a1c_from_eag (binary64 (10901 / 80)) = binary64 (637 / 100)"
  "est_a1c_from_eag (binary64 (8035 / 16)) = binary64 (1913 / 100)"
  by code_simp+

lemma est_a1c_error:
  assumes "10 \<le> m" and "m \<le> 800"
  shows "\<bar>est_a1c_from_eag m - (m + 467 / 10) / (287 / 10)\<bar> \<le> 1 / 200 + 1 / 10 ^ 12"
proof -
  define c1 :: real where "c1 = 3286220353096909 / 70368744177664"
  define k :: real where "k = 281474976710656 / 8078331831595827"
  define s where "s = binary64 (m + c1)"
  define q where "q = binary64 (s * k)"
  define r where "r = py_round q 2"
  have est: "est_a1c_from_eag m = binary64 r"
    by (simp add: est_a1c_from_eag_def binary64_46_7 binary64_28_7 r_def q_def s_def c1_def k_def)
  have s1: "\<bar>s - (m + c1)\<bar> \<le> 1 / 8796093022208"
    unfolding s_def using assms by (intro binary64_near) (simp_all add: c1_def)
  have s2: "56 \<le> s" "s \<le> 847"
    using s1 assms unfolding c1_def by linarith+
  have t: "1 \<le> s * k" "s * k \<le> 1024"
    using s2 unfolding k_def by linarith+
  have q1: "\<bar>q - s * k\<bar> \<le> 1 / 8796093022208"
    unfolding q_def using t by (rule binary64_near)
  have q2: "19 / 10 \<le> q" "q \<le> 30"
    using q1 s2 unfolding k_def by linarith+
  have r1: "\<bar>r - q\<bar> \<le> 1 / 200"
    unfolding r_def using py_round_error [of q 2] by simp
  have r2: "1 \<le> r" "r \<le> 1024"
    using r1 q2 by linarith+
  have e1: "\<bar>binary64 r - r\<bar> \<le> 1 / 8796093022208"
    using r2 by (rule binary64_near)
  have sb: "m + c1 - 1 / 8796093022208 \<le> s" "s \<le> m + c1 + 1 / 8796093022208"
    using s1 by linarith+
  have qb: "s * k - 1 / 8796093022208 \<le> q" "q \<le> s * k + 1 / 8796093022208"
    using q1 by linarith+
  have rb: "q - 1 / 200 \<le> r" "r \<le> q + 1 / 200"
    using r1 by linarith+
  have eb: "r - 1 / 8796093022208 \<le> binary64 r" "binary64 r \<le> r + 1 / 8796093022208"
    using e1 by linarith+
  have lo: "m * (10 / 287) + 467 / 287 - 1 / 10000000000000 \<le> s * k"
    using sb(1) assms unfolding c1_def k_def by linarith
  have hi: "s * k \<le> m * (10 / 287) + 467 / 287 + 1 / 10000000000000"
    using sb(2) assms unfolding c1_def k_def by linarith
  have "m * (10 / 287) + 467 / 287 - (1 / 200 + 1 / 1000000000000) \<le> binary64 r"
    using lo qb(1) rb(1) eb(1) by linarith
  moreover have "binary64 r \<le> m * (10 / 287) + 467 / 287 + (1 / 200 + 1 / 1000000000000)"
    using hi qb(2) rb(2) eb(2) by linarith
  ultimately have b: "\<bar>binary64 r - (m * (10 / 287) + 467 / 287)\<bar> \<le> 1 / 200 + 1 / 1000000000000"
    by linarith
  have c: "(m + 467 / 10) / (287 / 10) = m * (10 / 287) + 467 / 287"
    by (simp add: add_divide_distrib)
  have d: "(1::real) / 10 ^ 12 = 1 / 1000000000000" by simp
  show ?thesis unfolding est c d by (rule b)
qed

section \<open>Counting the readings in, below and above the range\<close>

lemma counts_partition:
  "low \<le> high \<Longrightarrow>
   in_range_ct series low high + low_ct series low + high_ct series high = length series"
  unfolding in_range_ct_def low_ct_def high_ct_def
  by (induction series) auto

lemma counts_crossed:
  "high < low \<Longrightarrow>
   in_range_ct series low high = 0 \<and>
   low_ct series low + high_ct series high
     = length series + length (filter (\<lambda>x. high < x \<and> x < low) series)"
  unfolding in_range_ct_def low_ct_def high_ct_def
  by (induction series) auto

section \<open>The percentages\<close>

lemma py_round_tenths: "\<exists>k::int. py_round x n = of_int k / 10 ^ n"
  unfolding py_round_def by blast

lemma exact_sum:
  assumes "series \<noteq> []" "low \<le> high"
  shows "100 * real (in_range_ct series low high) / real (length series)
       + 100 * real (low_ct series low) / real (length series)
       + 100 * real (high_ct series high) / real (length series) = 100"
proof -
  have n: "real (length series) \<noteq> 0" using assms(1) by simp
  have "real (in_range_ct series low high) + real (low_ct series low) + real (high_ct series high)
      = real (length series)"
    using counts_partition [OF assms(2), of series] by (metis of_nat_add)
  then have "100 * real (in_range_ct series low high) + 100 * real (low_ct series low)
       + 100 * real (high_ct series high) = 100 * real (length series)" by simp
  then show ?thesis using n by (simp add: add_divide_distrib [symmetric])
qed

lemma near_integer:
  fixes K :: int
  assumes "\<bar>of_int K / 10 - (100::real)\<bar> \<le> 3 / 20"
  shows "\<bar>of_int K / 10 - (100::real)\<bar> \<le> 1 / 10"
proof -
  have "\<bar>real_of_int K - 1000\<bar> \<le> 3 / 2" using assms by linarith
  then have "\<bar>real_of_int (K - 1000)\<bar> \<le> 3 / 2" by simp
  then have "\<bar>K - 1000\<bar> \<le> 1" by linarith
  then have "\<bar>real_of_int (K - 1000)\<bar> \<le> 1" by linarith
  then have "\<bar>real_of_int K - 1000\<bar> \<le> 1" by simp
  then show ?thesis by linarith
qed

lemma three_rounded:
  assumes "a + b + c = (100::real)"
  shows "\<bar>py_round a 1 + py_round b 1 + py_round c 1 - 100\<bar> \<le> 1 / 10"
proof -
  obtain ka kb kc :: int where k: "py_round a 1 = of_int ka / 10" "py_round b 1 = of_int kb / 10"
      "py_round c 1 = of_int kc / 10"
    using py_round_tenths [of a 1] py_round_tenths [of b 1] py_round_tenths [of c 1] by auto
  have e: "\<bar>py_round a 1 - a\<bar> \<le> 1 / 20" "\<bar>py_round b 1 - b\<bar> \<le> 1 / 20" "\<bar>py_round c 1 - c\<bar> \<le> 1 / 20"
    using py_round_error [of a 1] py_round_error [of b 1] py_round_error [of c 1] by simp_all
  have s: "py_round a 1 + py_round b 1 + py_round c 1 = real_of_int (ka + kb + kc) / 10"
    unfolding k by (simp add: add_divide_distrib)
  have "\<bar>py_round a 1 + py_round b 1 + py_round c 1 - 100\<bar> \<le> 3 / 20"
    using e assms by linarith
  then have "\<bar>real_of_int (ka + kb + kc) / 10 - 100\<bar> \<le> 3 / 20"
    unfolding s .
  then show ?thesis
    unfolding s by (rule near_integer)
qed

section \<open>Estimated A1C\<close>

text \<open>
  C1, amended. \<open>est_a1c_from_eag\<close> applies the relation \<open>(eag + 46.7) / 28.7\<close> in float
  arithmetic and rounds the float quotient to two decimals: the result is the float of a
  whole number of hundredths, and for a mean between 10 and 800 mg/dL it is within
  0.005 + 10^-12 of the exact quotient. At a mean of 154 mg/dL the quotient is
  200.7 / 28.7 = 6.993..., and the estimate is the float 6.99.
\<close>

theorem est_a1c_from_eag_relation:
  "est_a1c_from_eag m =
     binary64 (py_round (binary64 (binary64 (m + binary64 (467 / 10)) / binary64 (287 / 10))) 2)
   \<and> (\<exists>k::int. est_a1c_from_eag m = binary64 (of_int k / 100))
   \<and> (10 \<le> m \<and> m \<le> 800 \<longrightarrow>
        \<bar>est_a1c_from_eag m - (m + 467 / 10) / (287 / 10)\<bar> \<le> 1 / 200 + 1 / 10 ^ 12)
   \<and> est_a1c_from_eag 154 = binary64 (699 / 100)"
proof -
  have a: "est_a1c_from_eag m =
     binary64 (py_round (binary64 (binary64 (m + binary64 (467 / 10)) / binary64 (287 / 10))) 2)"
    by (simp add: est_a1c_from_eag_def)
  have b: "\<exists>k::int. est_a1c_from_eag m = binary64 (of_int k / 100)"
    unfolding a py_round_hundredths by blast
  have c: "10 \<le> m \<and> m \<le> 800 \<longrightarrow>
        \<bar>est_a1c_from_eag m - (m + 467 / 10) / (287 / 10)\<bar> \<le> 1 / 200 + 1 / 10 ^ 12"
    using est_a1c_error [of m] by blast
  have d: "est_a1c_from_eag 154 = binary64 (699 / 100)"
    unfolding est_a1c_154 binary64_6_99 ..
  from a b c d show ?thesis by blast
qed

theorem est_a1c_from_eag_relation_witness:
  "(10::real) \<le> 160 \<and> (160::real) \<le> 800
   \<and> \<bar>est_a1c_from_eag 160 - (160 + 467 / 10) / (287 / 10)\<bar> \<le> 1 / 200 + 1 / 10 ^ 12"
proof -
  have h: "(10::real) \<le> 160 \<and> (160::real) \<le> 800" by simp
  from est_a1c_from_eag_relation [of 160]
  have "(10::real) \<le> 160 \<and> (160::real) \<le> 800 \<longrightarrow>
      \<bar>est_a1c_from_eag 160 - (160 + 467 / 10) / (287 / 10)\<bar> \<le> 1 / 200 + 1 / 10 ^ 12"
    by blast
  with h show ?thesis by blast
qed

text \<open>
  C1 as stated fails: the estimate at a mean of 154 mg/dL is not 7.0.
\<close>

theorem est_a1c_from_eag_154_counterexample:
  "est_a1c_from_eag 154 \<noteq> 7"
  unfolding est_a1c_154 by simp

section \<open>Time in range\<close>

text \<open>
  C3, amended. For a non-empty series and thresholds with \<open>low \<le> high\<close>, \<open>time_in_range\<close>
  returns the three percentages \<open>round(100 * count / total, 1)\<close> of the readings within
  \<open>[low, high]\<close>, below \<open>low\<close> and above \<open>high\<close>, and their sum is within 0.1 of 100.
\<close>

theorem time_in_range_percentages:
  assumes "series \<noteq> []" and "low \<le> high"
  shows "time_in_range series low high =
           (py_round (100 * real (in_range_ct series low high) / real (length series)) 1,
            py_round (100 * real (low_ct series low) / real (length series)) 1,
            py_round (100 * real (high_ct series high) / real (length series)) 1)
         \<and> \<bar>pct_sum (time_in_range series low high) - 100\<bar> \<le> 1 / 10"
  using assms three_rounded [OF exact_sum [OF assms]]
  by (simp add: time_in_range_def pct_sum_def Let_def)

theorem time_in_range_percentages_witness:
  "[100, 90, 200, 250 :: int] \<noteq> [] \<and> (70::int) \<le> 180
   \<and> time_in_range [100, 90, 200, 250] 70 180 = (50, 0, 50)
   \<and> \<bar>pct_sum (time_in_range [100, 90, 200, 250] 70 180) - 100\<bar> \<le> 1 / 10"
  using time_in_range_percentages [of "[100, 90, 200, 250]" 70 180]
  by (simp add: in_range_ct_def low_ct_def high_ct_def py_round_def round_half_even_def
      pct_sum_def)

text \<open>
  C3 as stated, for every pair of thresholds, fails: with \<open>low = 200\<close> and \<open>high = 90\<close>
  (both within the bounds of the two settings) the one reading 100 is both below and above,
  and the percentages are 0, 100 and 100.
\<close>

theorem time_in_range_sum_counterexample:
  "[100 :: int] \<noteq> [] \<and> pct_sum (time_in_range [100] 200 90) = 200
   \<and> \<not> \<bar>pct_sum (time_in_range [100] 200 90) - 100\<bar> \<le> 3 / 10"
  by (simp add: time_in_range_def pct_sum_def in_range_ct_def low_ct_def high_ct_def
      py_round_def round_half_even_def)

text \<open>
  C4. On the empty series \<open>time_in_range\<close> returns \<open>(0.0, 0.0, 0.0)\<close>, whatever the
  thresholds; the function has no failing branch.
\<close>

theorem time_in_range_empty:
  "time_in_range [] low high = (0, 0, 0)"
  by (simp add: time_in_range_def)

text \<open>
  C9. With \<open>low \<le> high\<close> the three counts of \<open>time_in_range\<close> add up to the length of the
  series: every reading is counted once. The hypothesis is needed: with \<open>high < low\<close> no
  reading is in range and every reading strictly between \<open>high\<close> and \<open>low\<close> is counted both
  below and above.
\<close>

theorem time_in_range_counts_partition:
  "(low \<le> high \<longrightarrow>
      in_range_ct series low high + low_ct series low + high_ct series high = length series)
   \<and> (high < low \<longrightarrow>
      in_range_ct series low high = 0 \<and>
      low_ct series low + high_ct series high
        = length series + length (filter (\<lambda>x. high < x \<and> x < low) series))"
  using counts_partition [of low high series] counts_crossed [of high low series] by blast

theorem time_in_range_counts_partition_witness:
  "(70::int) \<le> 180
   \<and> in_range_ct [100, 50, 300] 70 180 + low_ct [100, 50, 300] 70 + high_ct [100, 50, 300] 180
       = length [100, 50, 300 :: int]
   \<and> (90::int) < 200
   \<and> in_range_ct [100] 200 90 = 0 \<and> low_ct [100] 200 + high_ct [100] 90 = 2"
  using time_in_range_counts_partition [of 70 180 "[100, 50, 300]"]
    time_in_range_counts_partition [of 200 90 "[100]"]
  by simp

section \<open>Normalisation never raises\<close>

lemma ensure_utc_fix_eq:
  "ensure_utc_fix parse x = Inr (normalize_to_reference parse x)"
proof (cases "to_datetime_coerce parse x")
  case NaT
  then show ?thesis by (simp add: ensure_utc_fix_def normalize_to_reference_def)
next
  case (Timestamp v tz)
  then show ?thesis
    by (cases tz) (simp_all add: ensure_utc_fix_def normalize_to_reference_def)
qed

lemma apply_series_total:
  assumes "\<And>x. f x = Inr (g x)"
  shows "apply_series f xs = Inr (map g xs)"
  by (induction xs) (simp_all add: assms)

lemma ensure_utc_eq:
  "ensure_utc parse s = Inr (map (normalize_to_reference parse) s)"
  unfolding ensure_utc_def by (rule apply_series_total) (rule ensure_utc_fix_eq)

lemma normalize_tag:
  "isna (normalize_to_reference parse x) \<or> tzinfo_of (normalize_to_reference parse x) = Some UTC"
  by (simp add: normalize_to_reference_def split: stamp.splits option.splits)

lemma normalize_again:
  "normalize_to_reference parse (Dt (normalize_to_reference parse x))
     = normalize_to_reference parse x"
  by (simp add: normalize_to_reference_def split: stamp.splits option.splits)

lemma normalize_isna:
  "isna (normalize_to_reference parse x) = isna (to_datetime_coerce parse x)"
  by (simp add: normalize_to_reference_def split: stamp.splits option.splits)

lemma normalize_date:
  "dt_date (normalize_to_reference parse x) =
     (case to_datetime_coerce parse x of NaT \<Rightarrow> None | Timestamp v tz \<Rightarrow> Some (v div ns_per_day))"
  by (simp add: normalize_to_reference_def split: stamp.splits option.splits)

section \<open>The view\<close>

lemma map2_set_datetime:
  "map2 set_datetime df (map h df) = map (\<lambda>r. set_datetime r (h r)) df"
  by (induction df) simp_all

lemma all_missing_iff:
  "list_all isna (map (normalize_to_reference parse) (map datetime df))
     = (\<forall>r\<in>set df. isna (to_datetime_coerce parse (datetime r)))"
  by (simp add: list_all_iff normalize_isna)

lemma view_raises:
  assumes "df \<noteq> []" and "\<forall>r\<in>set df. isna (to_datetime_coerce parse (datetime r))"
  shows "view parse df start_date end_date ctx_filter = Inl TypeError"
  using assms all_missing_iff [of parse df] by (simp add: view_def ensure_utc_eq)

lemma view_eq:
  assumes "df = [] \<or> (\<exists>r\<in>set df. \<not> isna (to_datetime_coerce parse (datetime r)))"
  shows "view parse df start_date end_date ctx_filter =
     Inr (filter (mask_row start_date end_date ctx_filter)
            (map (\<lambda>r. set_datetime r (normalize_to_reference parse (datetime r))) df))"
proof (cases "df = []")
  case True
  then show ?thesis by (simp add: view_def)
next
  case False
  with assms have "\<not> list_all isna (map (normalize_to_reference parse) (map datetime df))"
    unfolding all_missing_iff by blast
  with False show ?thesis
    using map2_set_datetime [of df "normalize_to_reference parse \<circ> datetime"]
    by (simp add: view_def ensure_utc_eq)
qed

lemma mask_set_datetime:
  "mask_row start_date end_date ctx_filter (set_datetime r d) =
     ((\<exists>x. dt_date d = Some x \<and> start_date \<le> x \<and> x \<le> end_date)
      \<and> (ctx_filter = [] \<or> context_col r \<in> set ctx_filter))"
  by (cases "dt_date d") (auto simp: mask_row_def set_datetime_def)

lemma view_filter_map:
  assumes "df = [] \<or> (\<exists>r\<in>set df. \<not> isna (to_datetime_coerce parse (datetime r)))"
  shows "view parse df start_date end_date ctx_filter =
     Inr (map (\<lambda>r. set_datetime r (normalize_to_reference parse (datetime r)))
            (filter (\<lambda>r. (\<exists>x. dt_date (normalize_to_reference parse (datetime r)) = Some x
                              \<and> start_date \<le> x \<and> x \<le> end_date)
                         \<and> (ctx_filter = [] \<or> context_col r \<in> set ctx_filter)) df))"
  unfolding view_eq [OF assms] filter_map o_def mask_set_datetime ..

text \<open>
  Where the log is empty or holds a timestamp, a window with \<open>start_date > end_date\<close> gives
  the empty view, and the rows with a missing timestamp have no part in the view.
\<close>

lemma view_empty_window:
  assumes "df = [] \<or> (\<exists>r\<in>set df. \<not> isna (to_datetime_coerce parse (datetime r)))"
    and "end_date < start_date"
  shows "view parse df start_date end_date ctx_filter = Inr []"
  unfolding view_filter_map [OF assms(1)] using assms(2) by (auto simp: filter_empty_conv)

lemma view_drops_missing:
  assumes "df = [] \<or> (\<exists>r\<in>set df. \<not> isna (to_datetime_coerce parse (datetime r)))"
  shows "view parse df start_date end_date ctx_filter =
   view parse (filter (\<lambda>r. \<not> isna (to_datetime_coerce parse (datetime r))) df)
     start_date end_date ctx_filter"
proof -
  let ?ok = "\<lambda>r. \<not> isna (to_datetime_coerce parse (datetime r))"
  have sub: "filter ?ok df = [] \<or> (\<exists>r\<in>set (filter ?ok df). ?ok r)"
  proof (cases "filter ?ok df")
    case Nil
    then show ?thesis by simp
  next
    case (Cons a as)
    then have "a \<in> set (filter ?ok df)" by simp
    then have "a \<in> set (filter ?ok df) \<and> ?ok a" by simp
    then show ?thesis by blast
  qed
  have "\<And>r. (\<exists>x. dt_date (normalize_to_reference parse (datetime r)) = Some x
                              \<and> start_date \<le> x \<and> x \<le> end_date) \<Longrightarrow> ?ok r"
    by (auto simp: normalize_date split: stamp.splits)
  then show ?thesis
    unfolding view_filter_map [OF assms] view_filter_map [OF sub]
    by (auto intro!: arg_cong [where f = "map _"] filter_cong)
qed

lemma ensure_utc_counts:
  "ensure_utc parse s = Inr (map (normalize_to_reference parse) s)
   \<and> length (filter (\<lambda>y. \<not> isna y) (map (normalize_to_reference parse) s))
       = length (filter (\<lambda>x. \<not> isna (to_datetime_coerce parse x)) s)"
  by (simp add: ensure_utc_eq filter_map o_def normalize_isna)

section \<open>Projection to the local zone\<close>

lemma fix_ts_eq:
  "fix_ts local x = Inr (case x of NaT \<Rightarrow> NaT | Timestamp v tz \<Rightarrow> Timestamp v (Some local))"
proof (cases x)
  case NaT
  then show ?thesis by (simp add: fix_ts_def)
next
  case (Timestamp v tz)
  then show ?thesis by (cases tz) (simp_all add: fix_ts_def)
qed

lemma to_local_eq:
  "to_local local xs =
     Inr (map (\<lambda>x. case x of NaT \<Rightarrow> NaT | Timestamp v tz \<Rightarrow> Timestamp v (Some local)) xs)"
  unfolding to_local_def by (rule apply_series_total) (rule fix_ts_eq)

lemma back_to_UTC:
  assumes "\<forall>x\<in>set xs. tzinfo_of x = Some UTC"
  shows "apply_series (\<lambda>y. tz_convert y UTC)
           (map (\<lambda>x. case x of NaT \<Rightarrow> NaT | Timestamp v tz \<Rightarrow> Timestamp v (Some local)) xs) = Inr xs"
  using assms
proof (induction xs)
  case Nil
  then show ?case by simp
next
  case (Cons x xs)
  then show ?case by (cases x) simp_all
qed

section \<open>The claims on timestamps, the filter and the tiles\<close>

text \<open>
  C2, amended. For a log that is empty or holds at least one timestamp, the view holds, in
  the order of the log and with normalised timestamps, the rows whose timestamp is not
  missing, whose calendar date in the reference zone (the UTC date of the instant, whatever
  zone the raw value carried) lies in \<open>[start_date, end_date]\<close>, and whose context is in
  \<open>ctx_filter\<close> when that is not empty.
\<close>

theorem view_selects_by_reference_date:
  assumes "df = [] \<or> (\<exists>r\<in>set df. \<not> isna (to_datetime_coerce parse (datetime r)))"
  shows "view parse df start_date end_date ctx_filter =
     Inr (map (\<lambda>r. set_datetime r (normalize_to_reference parse (datetime r)))
            (filter (\<lambda>r. (\<exists>d. dt_date (normalize_to_reference parse (datetime r)) = Some d
                              \<and> start_date \<le> d \<and> d \<le> end_date)
                         \<and> (ctx_filter = [] \<or> context_col r \<in> set ctx_filter)) df))
   \<and> dt_date (normalize_to_reference parse x) =
       (case to_datetime_coerce parse x of
          NaT \<Rightarrow> None
        | Timestamp v tz \<Rightarrow> Some (v div ns_per_day))"
  using view_filter_map [OF assms, of start_date end_date ctx_filter] normalize_date [of parse x]
  by blast

theorem view_selects_by_reference_date_witness:
  "\<not> isna (to_datetime_coerce sample_parse (datetime (row (Str ''1970-01-02'') 100)))
   \<and> view sample_parse [row (Str ''1970-01-02'') 100, row (Str ''junk'') 120] 0 5 []
       = Inr [row (Timestamp 86400000000000 (Some UTC)) 100]
   \<and> dt_date (normalize_to_reference sample_parse (Str ''1970-01-02'')) = Some 1"
proof -
  have h: "[row (Str ''1970-01-02'') 100, row (Str ''junk'') 120] = []
      \<or> (\<exists>r\<in>set [row (Str ''1970-01-02'') 100, row (Str ''junk'') 120].
            \<not> isna (to_datetime_coerce sample_parse (datetime r)))"
    by (simp add: row_def sample_parse_def)
  show ?thesis
    using view_selects_by_reference_date [OF h, of 0 5 "[]" "Str ''1970-01-02''"]
    by (simp add: row_def sample_parse_def normalize_to_reference_def set_datetime_def
        ns_per_day_def)
qed

text \<open>
  C2 as stated fails where the local zone is not UTC: a reading at 23:30 UTC on day 0
  passes the window \<open>[0, 0]\<close>, while two hours east of UTC its local date is day 1.
\<close>

theorem view_local_date_counterexample:
  "view sample_parse [row (Dt late_stamp) 100] 0 0 [] = Inr [row late_stamp 100]
   \<and> fix_ts two_east late_stamp = Inr (Timestamp 84600000000000 (Some two_east))
   \<and> dt_date (Timestamp 84600000000000 (Some two_east)) = Some 1
   \<and> \<not> date_le (Some 1) 0"
  by (simp add: view_def ensure_utc_def ensure_utc_fix_def late_stamp_def row_def
      set_datetime_def mask_row_def ns_per_day_def fix_ts_def two_east_def)

text \<open>
  C5. The claim: a timestamp that is not a date becomes the missing value and is left out
  of the filter and the statistics, and nothing is raised. The normaliser does its part
  (\<open>ensure_utc_counts\<close>), and so does the filter when the log holds a timestamp
  (\<open>view_drops_missing\<close>). In a log whose only row has a timestamp that is not a date the
  normalised column is all missing, and the filter raises \<open>TypeError\<close>.
\<close>

theorem view_all_malformed_raises:
  "sample_parse ''junk'' = None
   \<and> ensure_utc sample_parse [Str ''junk''] = Inr [NaT]
   \<and> view sample_parse [row (Str ''junk'') 120] 0 5 [] = Inl TypeError"
  by (simp add: view_def ensure_utc_def ensure_utc_fix_def sample_parse_def row_def)

text \<open>
  C6. With no reading in the view the average tile shows the dash, never the number 0;
  otherwise it shows the arithmetic mean of \<open>glucose_mgdl\<close> over the view.
\<close>

theorem metrics_mean:
  "k2 (metrics [] default_low default_high) = None
   \<and> k2 (metrics [] default_low default_high) \<noteq> Some 0
   \<and> (v \<noteq> [] \<longrightarrow>
        k2 (metrics v default_low default_high)
          = Some (real_of_int (sum_list (map glucose_mgdl v)) / real (length v)))"
  by (simp add: metrics_def Let_def)

theorem metrics_mean_witness:
  "[row late_stamp 100, row late_stamp 90, row late_stamp 200, row late_stamp 250] \<noteq> []
   \<and> k2 (metrics [row late_stamp 100, row late_stamp 90, row late_stamp 200, row late_stamp 250]
           70 180) = Some 160"
  using metrics_mean [of 70 180
      "[row late_stamp 100, row late_stamp 90, row late_stamp 200, row late_stamp 250]"]
  by (simp add: row_def)

text \<open>
  C7. The claim: with \<open>start_date > end_date\<close> the view is empty, whatever the log holds,
  and nothing is raised. It holds where the log is empty or holds a timestamp
  (\<open>view_empty_window\<close>). In a log whose only row has a timestamp that is not a date the
  filter raises \<open>TypeError\<close>, also with \<open>start_date = 1\<close> and \<open>end_date = 0\<close>.
\<close>

theorem view_reversed_window_raises:
  "(0::int) < 1 \<and> [row (Str ''junk'') 120] \<noteq> []
   \<and> view sample_parse [row (Str ''junk'') 120] 1 0 [] = Inl TypeError"
  by (simp add: view_def ensure_utc_def ensure_utc_fix_def sample_parse_def row_def)

text \<open>
  C8. A reference-zone timestamp projected to any zone \<open>Z\<close> and converted back is the same
  timestamp; so is, cell by cell, the \<open>local_dt\<close> column of a view of valid readings. Adding
  that column leaves the rows, and so the \<open>datetime\<close> column, as they were.
\<close>

theorem to_local_round_trip:
  "fix_ts Z (Timestamp v (Some UTC)) = Inr (Timestamp v (Some Z))
   \<and> tz_convert (Timestamp v (Some Z)) UTC = Inr (Timestamp v (Some UTC))
   \<and> (\<exists>l. add_local_dt Z rows = Inr (rows, l)
         \<and> (rows \<noteq> [] \<and> (\<forall>r\<in>set rows. tzinfo_of (datetime r) = Some UTC) \<longrightarrow>
              (\<exists>ls. l = Some ls \<and> length ls = length rows
                 \<and> apply_series (\<lambda>y. tz_convert y UTC) ls = Inr (map datetime rows))))"
proof -
  have a: "fix_ts Z (Timestamp v (Some UTC)) = Inr (Timestamp v (Some Z))"
    by (simp add: fix_ts_eq)
  have b: "tz_convert (Timestamp v (Some Z)) UTC = Inr (Timestamp v (Some UTC))"
    by simp
  have c: "\<exists>l. add_local_dt Z rows = Inr (rows, l)
         \<and> (rows \<noteq> [] \<and> (\<forall>r\<in>set rows. tzinfo_of (datetime r) = Some UTC) \<longrightarrow>
              (\<exists>ls. l = Some ls \<and> length ls = length rows
                 \<and> apply_series (\<lambda>y. tz_convert y UTC) ls = Inr (map datetime rows)))"
  proof (cases "rows = []")
    case True
    then show ?thesis by (simp add: add_local_dt_def)
  next
    case False
    have "(\<forall>r\<in>set rows. tzinfo_of (datetime r) = Some UTC) \<longrightarrow>
         apply_series (\<lambda>y. tz_convert y UTC)
           (map (\<lambda>x. case x of NaT \<Rightarrow> NaT | Timestamp v tz \<Rightarrow> Timestamp v (Some Z))
              (map datetime rows)) = Inr (map datetime rows)"
      using back_to_UTC [of "map datetime rows" Z] by simp
    with False show ?thesis by (simp add: add_local_dt_def to_local_eq)
  qed
  from a b c show ?thesis by blast
qed

theorem to_local_round_trip_witness:
  "[row late_stamp 100] \<noteq> [] \<and> tzinfo_of (datetime (row late_stamp 100)) = Some UTC
   \<and> add_local_dt two_east [row late_stamp 100]
       = Inr ([row late_stamp 100], Some [Timestamp 84600000000000 (Some two_east)])
   \<and> apply_series (\<lambda>y. tz_convert y UTC) [Timestamp 84600000000000 (Some two_east)]
       = Inr [late_stamp]"
  using to_local_round_trip [of two_east 84600000000000 "[row late_stamp 100]"]
  by (simp add: row_def late_stamp_def add_local_dt_def to_local_def fix_ts_def)

text \<open>
  C10. \<open>ensure_utc\<close> never raises and is idempotent; every cell of its result is missing or
  carries the UTC tag; and the result is the normalisation in the words of the
  specification: a value with no zone is tagged UTC as it stands, a value with a zone is
  taken to UTC at the same instant, text that is not a date is missing.
\<close>

theorem ensure_utc_idempotent:
  "\<exists>ys. ensure_utc parse s = Inr ys
      \<and> ensure_utc parse (map Dt ys) = Inr ys
      \<and> (\<forall>y\<in>set ys. isna y \<or> tzinfo_of y = Some UTC)
      \<and> ys = map (normalize_to_reference parse) s"
proof -
  have "map (normalize_to_reference parse \<circ> Dt \<circ> normalize_to_reference parse) s
      = map (normalize_to_reference parse) s"
    by (simp add: normalize_again)
  moreover have "\<forall>y\<in>set (map (normalize_to_reference parse) s). isna y \<or> tzinfo_of y = Some UTC"
    by (simp add: normalize_tag)
  ultimately show ?thesis
    by (simp add: ensure_utc_eq comp_assoc)
qed

theorem ensure_utc_idempotent_witness:
  "ensure_utc sample_parse
     [Str ''1970-01-02'', Str ''junk'', Dt (Timestamp 5 (Some two_east)), Dt (Timestamp 7 None), Dt NaT]
     = Inr [Timestamp 86400000000000 (Some UTC), NaT, Timestamp 5 (Some UTC), Timestamp 7 (Some UTC), NaT]
   \<and> ensure_utc sample_parse
       (map Dt [Timestamp 86400000000000 (Some UTC), NaT, Timestamp 5 (Some UTC), Timestamp 7 (Some UTC), NaT])
     = Inr [Timestamp 86400000000000 (Some UTC), NaT, Timestamp 5 (Some UTC), Timestamp 7 (Some UTC), NaT]"
proof -
  have e: "ensure_utc sample_parse
     [Str ''1970-01-02'', Str ''junk'', Dt (Timestamp 5 (Some two_east)), Dt (Timestamp 7 None), Dt NaT]
     = Inr [Timestamp 86400000000000 (Some UTC), NaT, Timestamp 5 (Some UTC), Timestamp 7 (Some UTC), NaT]"
    by (simp add: sample_parse_def ensure_utc_def ensure_utc_fix_def)
  show ?thesis
    using ensure_utc_idempotent [of sample_parse
     "[Str ''1970-01-02'', Str ''junk'', Dt (Timestamp 5 (Some two_east)), Dt (Timestamp 7 None), Dt NaT]"]
    unfolding e by auto
qed

end
